theory Spec2Isabelle
  imports Main
begin

section \<open>ConnectionFactory (src/connection-factory.ts)\<close>

text \<open>
  The factory drives three collaborators that live outside this file: the
  \<^verbatim>\<open>Connection\<close> class, the injected \<^verbatim>\<open>handshake\<close> function and
  \<^verbatim>\<open>sleep\<close>. Their behaviour is a parameter of the model. Everything outside the
  factory (server, sockets, hidden state of connections) is a world \<open>'w\<close> that the
  external calls read and change; \<open>'e\<close> is the type of thrown values, \<open>'g\<close> the
  type of greetings and \<open>'t\<close> the type of the TLS options.

  Every call that leaves the factory is appended to a trace, in program order, so that
  what was called, how often and in which order can be stated.

  JavaScript runs each piece of code between two \<^verbatim>\<open>await\<close>s without
  interruption, and the factory reads and writes \<^verbatim>\<open>attempts\<close> only inside such
  pieces. An operation is modelled as run to completion, and the pool's calls as a
  sequence. The counter is a JavaScript number that only ever holds integers; it is
  modelled as an \<open>int\<close>. (JavaScript numbers are exact on the integers up to
  \<open>2 ^ 53\<close>, and every increment of the counter is followed by a sleep.)

  The collaborators are taken not to touch the factory's fields, and the constructor of
  \<^verbatim>\<open>Connection\<close>, \<^verbatim>\<open>on\<close>, \<^verbatim>\<open>debug\<close> and \<^verbatim>\<open>sleep\<close> not to throw.
\<close>

subsection \<open>Data\<close>

text \<open>\<^verbatim>\<open>port: string | number\<close>\<close>

datatype port = PortString string | PortNumber int

text \<open>
  A listener is a function value. The file registers two kinds: the error sink stored in
  \<^verbatim>\<open>onConnectionError\<close> (by default \<^verbatim>\<open>console.error.bind(console)\<close>, or a
  handler put there by the caller), and the closure
  \<^verbatim>\<open>() => connection.removeAllListeners()\<close>.
\<close>

datatype listener = ConsoleError | UserHandler nat | RemoveAllListeners

text \<open>
  What the factory sees of a connection: the constructor's arguments, the
  \<^verbatim>\<open>connected\<close> flag and the registered listeners (event name and listener, in
  registration order).
\<close>

record 't connection =
  conn_port :: port
  conn_host :: string
  conn_tlsOptions :: 't
  connected :: bool
  listeners :: "(string \<times> listener) list"

text \<open>\<^verbatim>\<open>type handshaker = (conn: Connection, greeting: Greeting) => Promise<string>\<close>\<close>

type_synonym ('w, 'e, 'g, 't) handshaker =
  "'t connection \<Rightarrow> 'g \<Rightarrow> 'w \<Rightarrow> ('e + string) \<times> 't connection \<times> 'w"

record ('w, 'e, 'g, 't) factory =
  host :: string
  port :: port
  handshake :: "('w, 'e, 'g, 't) handshaker"
  tlsOptions :: 't
  attempts :: int
  onConnectionError :: listener

text \<open>
  The methods of \<^verbatim>\<open>Connection\<close> that the factory awaits. Each may fail, and may
  change the connection and the world.
\<close>

record ('w, 'e, 'g, 't) connection_ops =
  conn_open :: "'t connection \<Rightarrow> 'w \<Rightarrow> ('e + 'g) \<times> 't connection \<times> 'w"
  conn_close :: "'t connection \<Rightarrow> 'w \<Rightarrow> ('e + unit) \<times> 't connection \<times> 'w"

text \<open>The calls that leave the factory.\<close>

datatype ('g, 't) event =
    Debug string "int list"
  | New port string 't
  | On string listener
  | Open "'t connection"
  | Handshake "'t connection" 'g
  | Sleep int
  | Close "'t connection"

record ('w, 'e, 'g, 't) state =
  fac :: "('w, 'e, 'g, 't) factory"
  world :: 'w
  trace :: "('g, 't) event list"

definition logged :: "('g, 't) event \<Rightarrow> ('w, 'e, 'g, 't) state \<Rightarrow> ('w, 'e, 'g, 't) state" where
  "logged ev s = s\<lparr>trace := trace s @ [ev]\<rparr>"

subsection \<open>The collaborators\<close>

text \<open>
  Modelled from the spec: the \<^verbatim>\<open>Connection\<close> class of \<^verbatim>\<open>./connection\<close> is not
  in the source. A new connection is unopened and has no listener.
\<close>

definition new_connection :: "port \<Rightarrow> string \<Rightarrow> 't \<Rightarrow> 't connection" where
  "new_connection p h tls =
     \<lparr>conn_port = p, conn_host = h, conn_tlsOptions = tls, connected = False, listeners = []\<rparr>"

text \<open>
  Modelled from the spec: event registration of \<^verbatim>\<open>Connection\<close> (an event emitter).
  \<^verbatim>\<open>on\<close> adds the listener after those already registered.
\<close>

definition conn_on :: "'t connection \<Rightarrow> string \<Rightarrow> listener \<Rightarrow> 't connection" where
  "conn_on c ev l = c\<lparr>listeners := listeners c @ [(ev, l)]\<rparr>"

text \<open>
  Modelled from the spec: what a listener does to the connection when it is called. The
  closure of \<^verbatim>\<open>destroy\<close> removes every listener; an error sink reports out of band
  and leaves the connection alone.
\<close>

fun run_listener :: "listener \<Rightarrow> 't connection \<Rightarrow> 't connection" where
  "run_listener RemoveAllListeners c = c\<lparr>listeners := []\<rparr>"
| "run_listener ConsoleError c = c"
| "run_listener (UserHandler k) c = c"

text \<open>
  Modelled from the spec: the connection signals an event. The listeners registered for
  it at that moment are called in registration order.
\<close>

definition signal :: "'t connection \<Rightarrow> string \<Rightarrow> 't connection" where
  "signal c ev = fold run_listener (map snd (filter (\<lambda>p. fst p = ev) (listeners c))) c"

text \<open>
  Modelled from the spec: \<^verbatim>\<open>sleep\<close> of \<^verbatim>\<open>./utils\<close> is not in the source. It
  suspends the operation for the given duration and then completes.
\<close>

definition sleep :: "int \<Rightarrow> ('w, 'e, 'g, 't) state \<Rightarrow> ('w, 'e, 'g, 't) state" where
  "sleep ms s = logged (Sleep ms) s"

subsection \<open>The factory\<close>

definition constructor ::
  "string \<Rightarrow> port \<Rightarrow> ('w, 'e, 'g, 't) handshaker \<Rightarrow> 't \<Rightarrow> ('w, 'e, 'g, 't) factory" where
  "constructor h p hs tls =
     \<lparr>host = h, port = p, handshake = hs, tlsOptions = tls, attempts = 0,
      onConnectionError = ConsoleError\<rparr>"

text \<open>The \<^verbatim>\<open>catch\<close> block of \<^verbatim>\<open>create\<close>.\<close>

definition catch_block ::
  "'e \<Rightarrow> ('w, 'e, 'g, 't) state \<Rightarrow> ('e + 't connection) \<times> ('w, 'e, 'g, 't) state" where
  "catch_block e s =
     (let s1 = s\<lparr>fac := (fac s)\<lparr>attempts := attempts (fac s) + 1\<rparr>\<rparr>;
          napTime = 200 * min (attempts (fac s1)) 20;
          s2 = logged (Debug ''connection failed: attempts=%i backoff=%ims''
                      [attempts (fac s1), napTime]) s1;
          s3 = sleep napTime s2
      in (Inl e, s3))"

definition create ::
  "('w, 'e, 'g, 't) connection_ops \<Rightarrow> ('w, 'e, 'g, 't) state
     \<Rightarrow> ('e + 't connection) \<times> ('w, 'e, 'g, 't) state" where
  "create ops s =
     (let s1 = logged (Debug ''+1'' []) s;
          c0 = new_connection (port (fac s1)) (host (fac s1)) (tlsOptions (fac s1));
          s2 = logged (New (port (fac s1)) (host (fac s1)) (tlsOptions (fac s1))) s1;
          c1 = conn_on c0 ''error'' (onConnectionError (fac s2));
          s3 = logged (On ''error'' (onConnectionError (fac s2))) s2;
          s4 = logged (Open c1) s3
      in case conn_open ops c1 (world s4) of
           (Inl e, c2, w2) \<Rightarrow> catch_block e (s4\<lparr>world := w2\<rparr>)
         | (Inr greeting, c2, w2) \<Rightarrow>
             (let s5 = logged (Handshake c2 greeting) (s4\<lparr>world := w2\<rparr>)
              in case handshake (fac s5) c2 greeting (world s5) of
                   (Inl e, c3, w3) \<Rightarrow> catch_block e (s5\<lparr>world := w3\<rparr>)
                 | (Inr ident, c3, w3) \<Rightarrow>
                     (Inr c3, s5\<lparr>world := w3, fac := (fac s5)\<lparr>attempts := 0\<rparr>\<rparr>)))"

definition destroy ::
  "('w, 'e, 'g, 't) connection_ops \<Rightarrow> 't connection \<Rightarrow> ('w, 'e, 'g, 't) state
     \<Rightarrow> (('e + unit) \<times> 't connection) \<times> ('w, 'e, 'g, 't) state" where
  "destroy ops connection s =
     (let s1 = logged (Debug ''-1'' []) s;
          c1 = conn_on connection ''close'' RemoveAllListeners;
          s2 = logged (On ''close'' RemoveAllListeners) s1;
          s3 = logged (Close c1) s2
      in case conn_close ops c1 (world s3) of
           (r, c2, w2) \<Rightarrow> ((r, c2), s3\<lparr>world := w2\<rparr>))"

definition validate ::
  "'t connection \<Rightarrow> ('w, 'e, 'g, 't) state \<Rightarrow> (bool \<times> 't connection) \<times> ('w, 'e, 'g, 't) state" where
  "validate connection s = ((connected connection, connection), s)"

subsection \<open>The pool calling the factory\<close>

text \<open>
  The pool calls the three operations, one after the other, in any order and on any
  connections.
\<close>

datatype 't call = Create | Destroy "'t connection" | Validate "'t connection"

datatype ('e, 't) reply =
    Created "'e + 't connection"
  | Destroyed "'e + unit" "'t connection"
  | Validated bool "'t connection"

definition step ::
  "('w, 'e, 'g, 't) connection_ops \<Rightarrow> 't call \<Rightarrow> ('w, 'e, 'g, 't) state
     \<Rightarrow> ('e, 't) reply \<times> ('w, 'e, 'g, 't) state" where
  "step ops c s =
     (case c of
        Create \<Rightarrow> (case create ops s of (r, s') \<Rightarrow> (Created r, s'))
      | Destroy x \<Rightarrow> (case destroy ops x s of ((r, x'), s') \<Rightarrow> (Destroyed r x', s'))
      | Validate x \<Rightarrow> (case validate x s of ((b, x'), s') \<Rightarrow> (Validated b x', s')))"

fun run ::
  "('w, 'e, 'g, 't) connection_ops \<Rightarrow> 't call list \<Rightarrow> ('w, 'e, 'g, 't) state
     \<Rightarrow> ('e, 't) reply list \<times> ('w, 'e, 'g, 't) state" where
  "run ops [] s = ([], s)"
| "run ops (c # cs) s =
     (case step ops c s of (r, s1) \<Rightarrow>
        (case run ops cs s1 of (rs, s2) \<Rightarrow> (r # rs, s2)))"

fun failed :: "('e, 't) reply \<Rightarrow> bool" where
  "failed (Created (Inl e)) = True"
| "failed r = False"

fun succeeded :: "('e, 't) reply \<Rightarrow> bool" where
  "succeeded (Created (Inr c)) = True"
| "succeeded r = False"

fun is_created :: "('e, 't) reply \<Rightarrow> bool" where
  "is_created (Created r) = True"
| "is_created r = False"

text \<open>The durations slept, in order.\<close>

fun naps :: "('g, 't) event list \<Rightarrow> int list" where
  "naps [] = []"
| "naps (Sleep ms # evs) = ms # naps evs"
| "naps (ev # evs) = naps evs"

fun is_close :: "('g, 't) event \<Rightarrow> bool" where
  "is_close (Close c) = True"
| "is_close ev = False"

text \<open>
  The number of failed \<^verbatim>\<open>create\<close> calls since the last successful one, or since
  the first call, read off the replies the pool got.
\<close>

definition consecutive_failures :: "('e, 't) reply list \<Rightarrow> nat" where
  "consecutive_failures rs = length (takeWhile failed (rev (filter is_created rs)))"

subsection \<open>What \<^verbatim>\<open>create\<close> does before it awaits\<close>

text \<open>The connection as \<^verbatim>\<open>create\<close> hands it to \<^verbatim>\<open>open\<close>.\<close>

definition prepared :: "('w, 'e, 'g, 't) factory \<Rightarrow> 't connection" where
  "prepared f =
     conn_on (new_connection (port f) (host f) (tlsOptions f)) ''error'' (onConnectionError f)"

text \<open>The calls of \<^verbatim>\<open>create\<close> up to and including \<^verbatim>\<open>open\<close>.\<close>

definition prelude :: "('w, 'e, 'g, 't) factory \<Rightarrow> ('g, 't) event list" where
  "prelude f =
     [Debug ''+1'' [], New (port f) (host f) (tlsOptions f), On ''error'' (onConnectionError f),
      Open (prepared f)]"

text \<open>The calls of the \<^verbatim>\<open>catch\<close> block, entered with the factory \<open>f\<close>.\<close>

definition backoff :: "('w, 'e, 'g, 't) factory \<Rightarrow> ('g, 't) event list" where
  "backoff f =
     [Debug ''connection failed: attempts=%i backoff=%ims''
        [attempts f + 1, 200 * min (attempts f + 1) 20],
      Sleep (200 * min (attempts f + 1) 20)]"

subsection \<open>Test doubles\<close>

text \<open>
  A server whose state is the number of handshakes it will still reject; thrown values
  are strings, greetings are numbers and there are no TLS options.
\<close>

definition flaky_handshake :: "(nat, string, nat, unit) handshaker" where
  "flaky_handshake c g w =
     (if 0 < w then (Inl ''handshake rejected'', c, w - 1) else (Inr ''worker'', c, w))"

definition server_up :: "(nat, string, nat, unit) connection_ops" where
  "server_up =
     \<lparr>conn_open = (\<lambda>c w. (Inr 2, c\<lparr>connected := True\<rparr>, w)),
      conn_close = (\<lambda>c w. (Inr (), signal (c\<lparr>connected := False\<rparr>) ''close'', w))\<rparr>"

definition server_down :: "(nat, string, nat, unit) connection_ops" where
  "server_down =
     \<lparr>conn_open = (\<lambda>c w. (Inl ''ECONNREFUSED'', c, w)),
      conn_close = (\<lambda>c w. (Inr (), c, w))\<rparr>"

definition start :: "nat \<Rightarrow> (nat, string, nat, unit) state" where
  "start k =
     \<lparr>fac = constructor ''localhost'' (PortNumber 7419) flaky_handshake (),
      world = k, trace = []\<rparr>"

section \<open>How \<^verbatim>\<open>create\<close> ends\<close>

lemma create_open_fails:
  assumes "conn_open ops (prepared (fac s)) (world s) = (Inl e, c2, w2)"
  shows "create ops s =
    (Inl e, \<lparr>fac = (fac s)\<lparr>attempts := attempts (fac s) + 1\<rparr>, world = w2,
             trace = trace s @ prelude (fac s) @ backoff (fac s)\<rparr>)"
  using assms
  by (simp add: create_def catch_block_def sleep_def logged_def prepared_def prelude_def
      backoff_def Let_def)

lemma create_handshake_fails:
  assumes "conn_open ops (prepared (fac s)) (world s) = (Inr g, c2, w2)"
    and "handshake (fac s) c2 g w2 = (Inl e, c3, w3)"
  shows "create ops s =
    (Inl e, \<lparr>fac = (fac s)\<lparr>attempts := attempts (fac s) + 1\<rparr>, world = w3,
             trace = trace s @ prelude (fac s) @ Handshake c2 g # backoff (fac s)\<rparr>)"
  using assms
  by (simp add: create_def catch_block_def sleep_def logged_def prepared_def prelude_def
      backoff_def Let_def)

lemma create_succeeds:
  assumes "conn_open ops (prepared (fac s)) (world s) = (Inr g, c2, w2)"
    and "handshake (fac s) c2 g w2 = (Inr ident, c3, w3)"
  shows "create ops s =
    (Inr c3, \<lparr>fac = (fac s)\<lparr>attempts := 0\<rparr>, world = w3,
             trace = trace s @ prelude (fac s) @ [Handshake c2 g]\<rparr>)"
  using assms
  by (simp add: create_def catch_block_def sleep_def logged_def prepared_def prelude_def
      backoff_def Let_def)


lemma create_cases:
  obtains (open_fails) e c2 w2 where
      "conn_open ops (prepared (fac s)) (world s) = (Inl e, c2, w2)"
    | (handshake_fails) g c2 w2 e c3 w3 where
      "conn_open ops (prepared (fac s)) (world s) = (Inr g, c2, w2)"
      "handshake (fac s) c2 g w2 = (Inl e, c3, w3)"
    | (succeeds) g c2 w2 ident c3 w3 where
      "conn_open ops (prepared (fac s)) (world s) = (Inr g, c2, w2)"
      "handshake (fac s) c2 g w2 = (Inr ident, c3, w3)"
proof (cases "conn_open ops (prepared (fac s)) (world s)")
  case (fields r c2 w2)
  show ?thesis
  proof (cases r)
    case (Inl e)
    with fields open_fails show ?thesis by simp
  next
    case (Inr g)
    show ?thesis
    proof (cases "handshake (fac s) c2 g w2")
      case hs: (fields r' c3 w3)
      show ?thesis
      proof (cases r')
        case (Inl e)
        with fields Inr hs handshake_fails show ?thesis by simp
      next
        case (Inr ident)
        with fields \<open>r = Inr g\<close> hs succeeds show ?thesis by simp
      qed
    qed
  qed
qed

lemma naps_append: "naps (xs @ ys) = naps xs @ naps ys"
  by (induction xs rule: naps.induct) simp_all

lemma naps_prelude: "naps (prelude f) = []"
  by (simp add: prelude_def)

lemma naps_backoff: "naps (backoff f) = [200 * min (attempts f + 1) 20]"
  by (simp add: backoff_def)

lemma last_backoff: "last (xs @ backoff f) = Sleep (200 * min (attempts f + 1) 20)"
  by (simp add: backoff_def)

lemma create_failed:
  assumes "create ops s = (Inl e, s')"
  shows "fac s' = (fac s)\<lparr>attempts := attempts (fac s) + 1\<rparr>"
    and "naps (trace s') = naps (trace s) @ [200 * min (attempts (fac s) + 1) 20]"
    and "last (trace s') = Sleep (200 * min (attempts (fac s) + 1) 20)"
proof -
  have "fac s' = (fac s)\<lparr>attempts := attempts (fac s) + 1\<rparr> \<and>
        naps (trace s') = naps (trace s) @ [200 * min (attempts (fac s) + 1) 20] \<and>
        last (trace s') = Sleep (200 * min (attempts (fac s) + 1) 20)"
  proof (cases rule: create_cases [of ops s])
    case open_fails
    from create_open_fails [OF open_fails] assms show ?thesis
      by (auto simp: naps_append naps_prelude naps_backoff backoff_def)
  next
    case handshake_fails
    from create_handshake_fails [OF handshake_fails] assms show ?thesis
      by (auto simp: naps_append naps_prelude naps_backoff backoff_def)
  next
    case succeeds
    from create_succeeds [OF succeeds] assms show ?thesis by simp
  qed
  then show "fac s' = (fac s)\<lparr>attempts := attempts (fac s) + 1\<rparr>"
    and "naps (trace s') = naps (trace s) @ [200 * min (attempts (fac s) + 1) 20]"
    and "last (trace s') = Sleep (200 * min (attempts (fac s) + 1) 20)"
    by simp_all
qed

lemma ramp_shift:
  "map (\<lambda>k. 200 * min (a + int k) 20) [1..<Suc (Suc n)] =
   (200 * min (a + 1) 20) # map (\<lambda>k. 200 * min (a + 1 + int k) 20) [1..<Suc n]"
proof -
  have "[1..<Suc (Suc n)] = 1 # [Suc 1..<Suc (Suc n)]"
    by (rule upt_conv_Cons) simp
  also have "[Suc 1..<Suc (Suc n)] = map Suc [1..<Suc n]"
    by (simp only: map_Suc_upt)
  finally have eq: "[1..<Suc (Suc n)] = 1 # map Suc [1..<Suc n]" .
  show ?thesis
    unfolding eq by (simp add: comp_def algebra_simps del: upt_Suc)
qed

lemma run_failures:
  assumes "run ops (replicate n Create) s = (rs, s')" and "\<forall>r \<in> set rs. failed r"
  shows "naps (trace s') =
           naps (trace s) @ map (\<lambda>k. 200 * min (attempts (fac s) + int k) 20) [1..<Suc n] \<and>
         attempts (fac s') = attempts (fac s) + int n \<and>
         (0 < n \<longrightarrow> last (trace s') = Sleep (200 * min (attempts (fac s) + int n) 20))"
  using assms
proof (induction n arbitrary: s rs s')
  case 0
  then show ?case by simp
next
  case (Suc n)
  obtain r s1 where c: "create ops s = (r, s1)" by force
  obtain rs1 s2 where r: "run ops (replicate n Create) s1 = (rs1, s2)" by force
  from Suc.prems(1) c r have rs: "rs = Created r # rs1" and s': "s' = s2"
    by (simp_all add: step_def)
  from Suc.prems(2) rs obtain e where e: "r = Inl e" by (cases r) auto
  from Suc.prems(2) rs have "\<forall>r \<in> set rs1. failed r" by simp
  note IH = Suc.IH [OF r this]
  note cf = create_failed [OF c [unfolded e]]
  have a1: "attempts (fac s1) = attempts (fac s) + 1" using cf(1) by simp
  show ?case
  proof (cases n)
    case 0
    with r have "s2 = s1" by simp
    with 0 s' cf a1 show ?thesis by simp
  next
    case (Suc m)
    with IH a1 s' cf(2) show ?thesis
      by (simp only: ramp_shift) (simp add: add.assoc add.commute)
  qed
qed

lemma fold_run_listener:
  "listeners (fold run_listener ls c) =
     (if RemoveAllListeners \<in> set ls then [] else listeners c)"
proof (induction ls arbitrary: c)
  case Nil
  then show ?case by simp
next
  case (Cons l ls)
  then show ?case by (cases l) simp_all
qed

lemma signal_removes_all:
  assumes "(ev, RemoveAllListeners) \<in> set (listeners c)"
  shows "listeners (signal c ev) = []"
proof -
  from assms have "RemoveAllListeners \<in> set (map snd (filter (\<lambda>p. fst p = ev) (listeners c)))"
    by force
  then show ?thesis by (simp add: signal_def fold_run_listener)
qed

lemma create_succeeded:
  assumes "create ops s = (Inr c, s')"
  shows "fac s' = (fac s)\<lparr>attempts := 0\<rparr>"
proof (cases rule: create_cases [of ops s])
  case open_fails
  from create_open_fails [OF open_fails] assms show ?thesis by simp
next
  case handshake_fails
  from create_handshake_fails [OF handshake_fails] assms show ?thesis by simp
next
  case succeeds
  from create_succeeds [OF succeeds] assms show ?thesis by auto
qed

lemma create_trace:
  assumes "create ops s = (r, s')"
  shows "\<exists>rest. trace s' = trace s @ prelude (fac s) @ rest \<and> (\<forall>x. Close x \<notin> set rest)"
proof (cases rule: create_cases [of ops s])
  case open_fails
  from create_open_fails [OF open_fails] assms show ?thesis
    by (auto simp: backoff_def)
next
  case handshake_fails
  from create_handshake_fails [OF handshake_fails] assms show ?thesis
    by (auto simp: backoff_def)
next
  case succeeds
  from create_succeeds [OF succeeds] assms show ?thesis by auto
qed

subsection \<open>Sequences of calls\<close>

lemma step_fac:
  assumes "step ops c s = (r, s')"
  shows "fac s' = (fac s)\<lparr>attempts := attempts (fac s')\<rparr>" and "c \<noteq> Create \<Longrightarrow> fac s' = fac s"
proof -
  have "fac s' = (fac s)\<lparr>attempts := attempts (fac s')\<rparr> \<and> (c \<noteq> Create \<longrightarrow> fac s' = fac s)"
  proof (cases c)
    case Create
    obtain x t where cr: "create ops s = (x, t)" by force
    with Create assms have t: "t = s'" by (simp add: step_def)
    show ?thesis
    proof (cases x)
      case (Inl e)
      from create_failed(1) [OF cr [unfolded Inl]] t Create show ?thesis by simp
    next
      case (Inr y)
      from create_succeeded [OF cr [unfolded Inr]] t Create show ?thesis by simp
    qed
  next
    case (Destroy x)
    with assms show ?thesis
      by (auto simp: step_def destroy_def logged_def Let_def split: prod.splits)
  next
    case (Validate x)
    with assms show ?thesis
      by (auto simp: step_def validate_def)
  qed
  then show "fac s' = (fac s)\<lparr>attempts := attempts (fac s')\<rparr>"
    and "c \<noteq> Create \<Longrightarrow> fac s' = fac s" by simp_all
qed

lemma step_attempts:
  assumes "step ops c s = (r, s')"
  shows "attempts (fac s') =
           (if succeeded r then 0 else if failed r then attempts (fac s) + 1
            else attempts (fac s))"
proof (cases c)
  case Create
  obtain x t where cr: "create ops s = (x, t)" by force
  with Create assms have t: "t = s'" and r: "r = Created x" by (simp_all add: step_def)
  show ?thesis
  proof (cases x)
    case (Inl e)
    from create_failed(1) [OF cr [unfolded Inl]] t r Inl show ?thesis by simp
  next
    case (Inr y)
    from create_succeeded [OF cr [unfolded Inr]] t r Inr show ?thesis by simp
  qed
next
  case (Destroy x)
  from step_fac(2) [OF assms] Destroy assms show ?thesis
    by (auto simp: step_def split: prod.splits)
next
  case (Validate x)
  from step_fac(2) [OF assms] Validate assms show ?thesis
    by (auto simp: step_def split: prod.splits)
qed

lemma reply_kinds: "succeeded r \<longleftrightarrow> is_created r \<and> \<not> failed r"
  by (cases r rule: failed.cases) simp_all

lemma all_failed_iff:
  "(\<forall>x \<in> set (rev (filter is_created rs)). failed x) \<longleftrightarrow> \<not> list_ex succeeded rs"
  by (auto simp: list_ex_iff reply_kinds)

lemma consecutive_failures_Cons:
  "consecutive_failures (r # rs) =
     (if failed r \<and> \<not> list_ex succeeded rs then Suc (consecutive_failures rs)
      else consecutive_failures rs)"
proof (cases "is_created r")
  case False
  then have "\<not> failed r" by (cases r rule: failed.cases) simp_all
  with False show ?thesis by (simp add: consecutive_failures_def)
next
  case True
  let ?xs = "rev (filter is_created rs)"
  from True have xs: "rev (filter is_created (r # rs)) = ?xs @ [r]" by simp
  show ?thesis
  proof (cases "list_ex succeeded rs")
    case ex: True
    with all_failed_iff [of rs] obtain x where "x \<in> set ?xs" and "\<not> failed x" by blast
    then have "takeWhile failed (?xs @ [r]) = takeWhile failed ?xs"
      by (rule takeWhile_append1)
    with ex show ?thesis
      unfolding consecutive_failures_def xs by simp
  next
    case no: False
    with all_failed_iff [of rs] have all: "\<forall>x \<in> set ?xs. failed x" by blast
    then have tw: "takeWhile failed (?xs @ [r]) = ?xs @ takeWhile failed [r]"
      by (intro takeWhile_append2) blast
    from all have tw0: "takeWhile failed ?xs = ?xs" by simp
    show ?thesis
      unfolding consecutive_failures_def xs tw tw0 using no by simp
  qed
qed

lemma run_attempts:
  assumes "run ops cs s = (rs, s')"
  shows "attempts (fac s') =
           (if list_ex succeeded rs then 0 else attempts (fac s)) + int (consecutive_failures rs)"
  using assms
proof (induction cs arbitrary: s rs s')
  case Nil
  then show ?case by (auto simp: consecutive_failures_def)
next
  case (Cons c cs)
  obtain r s1 where st: "step ops c s = (r, s1)" by force
  obtain rs1 s2 where ru: "run ops cs s1 = (rs1, s2)" by force
  from Cons.prems st ru have rs: "rs = r # rs1" and s': "s' = s2" by simp_all
  note IH = Cons.IH [OF ru]
  note sa = step_attempts [OF st]
  show ?case
  proof (cases "succeeded r")
    case True
    with reply_kinds [of r] have "\<not> failed r" by simp
    with True IH sa rs s' show ?thesis
      by (simp add: consecutive_failures_Cons)
  next
    case False
    with IH sa rs s' show ?thesis
      by (simp add: consecutive_failures_Cons)
  qed
qed

subsection \<open>The test doubles, evaluated\<close>

lemma create_server_down:
  "create server_down s =
     (Inl ''ECONNREFUSED'',
      \<lparr>fac = (fac s)\<lparr>attempts := attempts (fac s) + 1\<rparr>, world = world s,
       trace = trace s @ prelude (fac s) @ backoff (fac s)\<rparr>)"
  by (rule create_open_fails) (simp add: server_down_def)

lemma create_flaky_rejected:
  assumes "handshake (fac s) = flaky_handshake" and "0 < world s"
  shows "create server_up s =
     (Inl ''handshake rejected'',
      \<lparr>fac = (fac s)\<lparr>attempts := attempts (fac s) + 1\<rparr>, world = world s - 1,
       trace = trace s @ prelude (fac s) @
               Handshake ((prepared (fac s))\<lparr>connected := True\<rparr>) 2 # backoff (fac s)\<rparr>)"
  using assms
  by (simp add: create_def catch_block_def sleep_def logged_def prepared_def prelude_def
      backoff_def server_up_def flaky_handshake_def Let_def)

lemma create_flaky_accepted:
  assumes "handshake (fac s) = flaky_handshake" and "world s = 0"
  shows "create server_up s =
     (Inr ((prepared (fac s))\<lparr>connected := True\<rparr>),
      \<lparr>fac = (fac s)\<lparr>attempts := 0\<rparr>, world = 0,
       trace = trace s @ prelude (fac s) @
               [Handshake ((prepared (fac s))\<lparr>connected := True\<rparr>) 2]\<rparr>)"
  using assms
  by (simp add: create_def catch_block_def sleep_def logged_def prepared_def prelude_def
      backoff_def server_up_def flaky_handshake_def Let_def)

lemma close_server_up:
  "conn_close server_up c w = (Inr (), signal (c\<lparr>connected := False\<rparr>) ''close'', w)"
  by (simp add: server_up_def)

lemma start_simps:
  "handshake (fac (start k)) = flaky_handshake" "world (start k) = k" "trace (start k) = []"
  "attempts (fac (start k)) = 0"
  by (simp_all add: start_def constructor_def)

section \<open>The claims\<close>

text \<open>
  C1. After \<open>N\<close> consecutive failures of \<^verbatim>\<open>create\<close>, counted from a factory whose
  counter is 0, the delays slept are \<open>200 * min k 20\<close> for \<open>k = 1, \<dots>, N\<close>, in this
  order; the sleep of the \<open>N\<close>th failure is the last call before its rejection, and the
  counter is \<open>N\<close>. From the 20th failure on the delay is 4000.
\<close>

theorem consecutive_failures_backoff:
  assumes "run ops (replicate n Create) s = (rs, s')"
    and "\<forall>r \<in> set rs. failed r"
    and "attempts (fac s) = 0"
  shows "naps (trace s') = naps (trace s) @ map (\<lambda>k. 200 * min (int k) 20) [1..<Suc n] \<and>
         (0 < n \<longrightarrow> last (trace s') = Sleep (200 * min (int n) 20)) \<and>
         attempts (fac s') = int n"
  using run_failures [OF assms(1,2)] assms(3) by simp

text \<open>Twenty-one refused connections: the 21st rejection comes after a sleep of 4000.\<close>

theorem consecutive_failures_backoff_witness:
  "list_all failed (fst (run server_down (replicate 21 Create) (start 0))) \<and>
   attempts (fac (start 0)) = 0 \<and>
   last (trace (snd (run server_down (replicate 21 Create) (start 0)))) = Sleep 4000 \<and>
   attempts (fac (snd (run server_down (replicate 21 Create) (start 0)))) = 21"
proof -
  let ?r = "run server_down (replicate 21 Create) (start 0)"
  have run: "?r = (fst ?r, snd ?r)" by simp
  have all: "\<forall>r \<in> set (fst ?r). failed r"
    by (simp add: eval_nat_numeral step_def create_server_down)
  have init: "attempts (fac (start 0)) = 0"
    by (simp add: start_simps)
  from consecutive_failures_backoff [OF run all init] all init show ?thesis
    by (simp add: list_all_iff)
qed

text \<open>
  C2. When \<^verbatim>\<open>create\<close> returns a connection, \<^verbatim>\<open>open\<close> returned a greeting, the
  injected handshake was called on that connection with that greeting and returned, and
  the connection returned is the one the handshake left.
\<close>

theorem create_returns_only_handshaken:
  assumes "create ops s = (Inr c, s')"
  shows "\<exists>g c2 w2 ident.
           conn_open ops (prepared (fac s)) (world s) = (Inr g, c2, w2) \<and>
           handshake (fac s) c2 g w2 = (Inr ident, c, world s') \<and>
           trace s' =
             trace s @
             [Debug ''+1'' [], New (port (fac s)) (host (fac s)) (tlsOptions (fac s)),
              On ''error'' (onConnectionError (fac s)), Open (prepared (fac s)),
              Handshake c2 g]"
proof (cases rule: create_cases [of ops s])
  case open_fails
  from create_open_fails [OF open_fails] assms show ?thesis by simp
next
  case handshake_fails
  from create_handshake_fails [OF handshake_fails] assms show ?thesis by simp
next
  case succeeds
  from create_succeeds [OF succeeds] assms succeeds show ?thesis
    by (auto simp: prelude_def)
qed

theorem create_returns_only_handshaken_witness:
  "\<exists>c s'. create server_up (start 0) = (Inr c, s') \<and> connected c \<and>
     (\<exists>g c2 w2 ident.
        conn_open server_up (prepared (fac (start 0))) (world (start 0)) = (Inr g, c2, w2) \<and>
        handshake (fac (start 0)) c2 g w2 = (Inr ident, c, world s'))"
proof -
  note ok = create_flaky_accepted [of "start 0", OF start_simps(1,2)]
  from create_returns_only_handshaken [OF ok] ok show ?thesis by auto
qed

text \<open>
  C3. After a successful \<^verbatim>\<open>create\<close> the counter is 0, whatever it was before.
\<close>

theorem success_resets_attempts:
  assumes "create ops s = (Inr c, s')"
  shows "attempts (fac s') = 0"
proof (cases rule: create_cases [of ops s])
  case open_fails
  from create_open_fails [OF open_fails] assms show ?thesis by simp
next
  case handshake_fails
  from create_handshake_fails [OF handshake_fails] assms show ?thesis by simp
next
  case succeeds
  from create_succeeds [OF succeeds] assms show ?thesis by auto
qed

text \<open>Two rejected handshakes, then an accepted one.\<close>

theorem success_resets_attempts_witness:
  "naps (trace (snd (run server_up [Create, Create] (start 2)))) = [200, 400] \<and>
   attempts (fac (snd (run server_up [Create, Create] (start 2)))) = 2 \<and>
   (\<exists>c. fst (create server_up (snd (run server_up [Create, Create] (start 2)))) = Inr c) \<and>
   attempts (fac (snd (create server_up (snd (run server_up [Create, Create] (start 2)))))) = 0"
proof -
  let ?s = "snd (run server_up [Create, Create] (start 2))"
  have s: "attempts (fac ?s) = 2" "handshake (fac ?s) = flaky_handshake" "world ?s = 0"
    "naps (trace ?s) = [200, 400]"
    by (simp_all add: step_def create_flaky_rejected start_simps naps_append naps_prelude
        naps_backoff)
  note ok = create_flaky_accepted [of ?s, OF s(2,3)]
  from success_resets_attempts [OF ok] ok s(1,4) show ?thesis by simp
qed

text \<open>
  C4. \<^verbatim>\<open>create\<close> rejects exactly when \<^verbatim>\<open>open\<close> throws, or \<^verbatim>\<open>open\<close> returns
  and the injected handshake throws. The value it rejects with is the value thrown there;
  by then the counter has been incremented, and the backoff sleep is the last call made.
\<close>

theorem create_rejects_iff:
  "((\<exists>e s'. create ops s = (Inl e, s')) \<longleftrightarrow>
      (\<exists>e c2 w2. conn_open ops (prepared (fac s)) (world s) = (Inl e, c2, w2)) \<or>
      (\<exists>g c2 w2 e c3 w3. conn_open ops (prepared (fac s)) (world s) = (Inr g, c2, w2) \<and>
         handshake (fac s) c2 g w2 = (Inl e, c3, w3))) \<and>
   (create ops s = (Inl e, s') \<longrightarrow>
      ((\<exists>c2. conn_open ops (prepared (fac s)) (world s) = (Inl e, c2, world s')) \<or>
       (\<exists>g c2 w2 c3. conn_open ops (prepared (fac s)) (world s) = (Inr g, c2, w2) \<and>
          handshake (fac s) c2 g w2 = (Inl e, c3, world s'))) \<and>
      attempts (fac s') = attempts (fac s) + 1 \<and>
      (\<exists>evs. trace s' =
         trace s @ evs @
         [Debug ''connection failed: attempts=%i backoff=%ims''
            [attempts (fac s) + 1, 200 * min (attempts (fac s) + 1) 20],
          Sleep (200 * min (attempts (fac s) + 1) 20)]))"
proof (cases rule: create_cases [of ops s])
  case open_fails
  from create_open_fails [OF open_fails] open_fails show ?thesis
    by (auto simp: backoff_def)
next
  case handshake_fails
  from create_handshake_fails [OF handshake_fails] handshake_fails show ?thesis
    by (auto simp: backoff_def intro: exI [of _ "prelude (fac s) @ [Handshake c2 g]"])
next
  case succeeds
  from create_succeeds [OF succeeds] succeeds show ?thesis by auto
qed

theorem create_rejects_iff_witness:
  "fst (create server_up (start 1)) = Inl ''handshake rejected'' \<and>
   (\<exists>c3. handshake (fac (start 1)) ((prepared (fac (start 1)))\<lparr>connected := True\<rparr>) 2 1 =
      (Inl ''handshake rejected'', c3, world (snd (create server_up (start 1))))) \<and>
   attempts (fac (snd (create server_up (start 1)))) = 1 \<and>
   last (trace (snd (create server_up (start 1)))) = Sleep 200"
proof -
  let ?s' = "snd (create server_up (start 1))"
  have r: "create server_up (start 1) = (Inl ''handshake rejected'', ?s')"
    by (simp add: create_flaky_rejected start_simps)
  have o: "conn_open server_up (prepared (fac (start 1))) (world (start 1)) =
             (Inr 2, (prepared (fac (start 1)))\<lparr>connected := True\<rparr>, 1)"
    by (simp add: server_up_def start_simps)
  from create_rejects_iff [of server_up "start 1" "''handshake rejected''" ?s'] r o
  show ?thesis by (auto simp: start_simps)
qed

text \<open>
  C5. \<^verbatim>\<open>validate\<close> returns the connection's \<^verbatim>\<open>connected\<close> flag. The connection
  and the whole state (the factory with its counter, the world, the trace of calls made)
  are what they were.
\<close>

theorem validate_reads_flag:
  "fst (fst (validate c s)) = connected c \<and>
   snd (fst (validate c s)) = c \<and>
   snd (validate c s) = s \<and>
   attempts (fac (snd (validate c s))) = attempts (fac s) \<and>
   world (snd (validate c s)) = world s \<and>
   trace (snd (validate c s)) = trace s"
  by (simp add: validate_def)

text \<open>
  C6. \<^verbatim>\<open>destroy\<close> makes three calls: the debug line, the registration of the closure
  for \<^verbatim>\<open>"close"\<close>, and \<^verbatim>\<open>close\<close>, once, on the connection that carries the closure.
  When a connection with these listeners signals \<^verbatim>\<open>"close"\<close> it has no listener left.
  The outcome of \<^verbatim>\<open>destroy\<close> is the outcome of \<^verbatim>\<open>close\<close>: it throws only what
  \<^verbatim>\<open>close\<close> throws.
\<close>

theorem destroy_closes_once:
  fixes c :: "'t connection"
  assumes "destroy ops c s = ((r, c'), s')"
  shows "trace s' =
           trace s @
           [Debug ''-1'' [], On ''close'' RemoveAllListeners,
            Close (conn_on c ''close'' RemoveAllListeners)] \<and>
         length (filter is_close (trace s')) = Suc (length (filter is_close (trace s))) \<and>
         (\<forall>x :: 't connection.
            listeners x = listeners (conn_on c ''close'' RemoveAllListeners) \<longrightarrow>
            listeners (signal x ''close'') = []) \<and>
         conn_close ops (conn_on c ''close'' RemoveAllListeners) (world s) = (r, c', world s') \<and>
         fac s' = fac s"
proof -
  have "\<And>x :: 't connection.
          listeners x = listeners (conn_on c ''close'' RemoveAllListeners) \<Longrightarrow>
          listeners (signal x ''close'') = []"
    by (rule signal_removes_all) (simp add: conn_on_def)
  moreover from assms have
    "trace s' =
       trace s @
       [Debug ''-1'' [], On ''close'' RemoveAllListeners,
        Close (conn_on c ''close'' RemoveAllListeners)]"
    "conn_close ops (conn_on c ''close'' RemoveAllListeners) (world s) = (r, c', world s')"
    "fac s' = fac s"
    by (auto simp: destroy_def logged_def Let_def split: prod.splits)
  ultimately show ?thesis by simp
qed

text \<open>A connection that carries the error sink is destroyed; its close signals.\<close>

theorem destroy_closes_once_witness:
  "\<exists>c' s'. destroy server_up (prepared (fac (start 0))) (start 0) = ((Inr (), c'), s') \<and>
     listeners (prepared (fac (start 0))) = [(''error'', ConsoleError)] \<and>
     listeners c' = [] \<and>
     length (filter is_close (trace s')) = 1"
proof -
  let ?c = "prepared (fac (start 0))"
  obtain r c' s' where d: "destroy server_up ?c (start 0) = ((r, c'), s')"
    by (metis prod.collapse)
  from destroy_closes_once [OF d] have
    t: "length (filter is_close (trace s')) = Suc (length (filter is_close (trace (start 0))))"
    and l: "listeners ((conn_on ?c ''close'' RemoveAllListeners)\<lparr>connected := False\<rparr>) =
              listeners (conn_on ?c ''close'' RemoveAllListeners) \<longrightarrow>
            listeners (signal ((conn_on ?c ''close'' RemoveAllListeners)\<lparr>connected := False\<rparr>)
              ''close'') = []"
    and k: "conn_close server_up (conn_on ?c ''close'' RemoveAllListeners) (world (start 0)) =
              (r, c', world s')"
    by blast+
  from k have "r = Inr ()"
    and "c' = signal ((conn_on ?c ''close'' RemoveAllListeners)\<lparr>connected := False\<rparr>) ''close''"
    by (simp_all add: server_up_def)
  with l have "r = Inr ()" and "listeners c' = []" by simp_all
  moreover have "listeners ?c = [(''error'', ConsoleError)]"
    by (simp add: prepared_def conn_on_def new_connection_def start_def constructor_def)
  ultimately show ?thesis using d t by (simp add: start_simps)
qed

text \<open>
  C7. The counter is 0 in a new factory. After any sequence of calls by the pool on that
  factory it is the number of failed \<^verbatim>\<open>create\<close> calls since the last successful one
  (or since construction), hence not negative. A failed \<^verbatim>\<open>create\<close> adds exactly 1 and
  sleeps \<open>200 * min attempts 20\<close>, computed from the counter alone; a successful one sets
  the counter to 0.
\<close>

theorem attempts_counts_consecutive_failures:
  fixes ops :: "('w, 'e, 'g, 't) connection_ops"
  assumes "fac s = constructor h p hs tls" and "run ops cs s = (rs, s')"
  shows "attempts (fac s) = 0 \<and>
         0 \<le> attempts (fac s') \<and>
         attempts (fac s') = int (consecutive_failures rs) \<and>
         (\<forall>(t :: ('w, 'e, 'g, 't) state) e t'. create ops t = (Inl e, t') \<longrightarrow>
            attempts (fac t') = attempts (fac t) + 1 \<and>
            naps (trace t') = naps (trace t) @ [200 * min (attempts (fac t')) 20]) \<and>
         (\<forall>(t :: ('w, 'e, 'g, 't) state) c t'. create ops t = (Inr c, t') \<longrightarrow>
            attempts (fac t') = 0)"
proof -
  from assms(1) have zero: "attempts (fac s) = 0" by (simp add: constructor_def)
  with run_attempts [OF assms(2)] have eq: "attempts (fac s') = int (consecutive_failures rs)"
    by simp
  have inc: "attempts (fac t') = attempts (fac t) + 1 \<and>
             naps (trace t') = naps (trace t) @ [200 * min (attempts (fac t')) 20]"
    if "create ops t = (Inl e, t')" for t :: "('w, 'e, 'g, 't) state" and e t'
    using create_failed(1,2) [OF that] by simp
  have reset: "attempts (fac t') = 0"
    if "create ops t = (Inr c, t')" for t :: "('w, 'e, 'g, 't) state" and c t'
    using create_succeeded [OF that] by simp
  from zero eq inc reset show ?thesis by simp
qed

text \<open>
  Five handshakes will be rejected. Between three \<^verbatim>\<open>create\<close> calls the pool
  validates and destroys a connection.
\<close>

theorem attempts_counts_consecutive_failures_witness:
  "fac (start 5) = constructor ''localhost'' (PortNumber 7419) flaky_handshake () \<and>
   consecutive_failures
     (fst (run server_up
        [Create, Validate (prepared (fac (start 5))), Create,
         Destroy (prepared (fac (start 5))), Create] (start 5))) = 3 \<and>
   attempts (fac (snd (run server_up
        [Create, Validate (prepared (fac (start 5))), Create,
         Destroy (prepared (fac (start 5))), Create] (start 5)))) = 3"
proof -
  let ?cs = "[Create, Validate (prepared (fac (start 5))), Create,
              Destroy (prepared (fac (start 5))), Create]"
  let ?r = "run server_up ?cs (start 5)"
  have f: "fac (start 5) = constructor ''localhost'' (PortNumber 7419) flaky_handshake ()"
    by (simp add: start_def)
  have run: "?r = (fst ?r, snd ?r)" by simp
  have n: "consecutive_failures (fst ?r) = 3"
    by (simp add: step_def create_flaky_rejected start_simps validate_def destroy_def
        logged_def close_server_up consecutive_failures_def Let_def)
  from attempts_counts_consecutive_failures [OF f run] f n show ?thesis by simp
qed

text \<open>
  C8. The calls of every \<^verbatim>\<open>create\<close> begin with the debug line, the construction of
  the connection, the registration of the error sink for \<^verbatim>\<open>"error"\<close> and then
  \<^verbatim>\<open>open\<close>; the connection handed to \<^verbatim>\<open>open\<close> carries the sink. Every other call on
  the connection comes after \<^verbatim>\<open>open\<close>.
\<close>

theorem error_sink_registered_before_open:
  assumes "create ops s = (r, s')"
  shows "(\<exists>rest. trace s' =
            trace s @
            [Debug ''+1'' [], New (port (fac s)) (host (fac s)) (tlsOptions (fac s)),
             On ''error'' (onConnectionError (fac s)), Open (prepared (fac s))] @ rest) \<and>
         (''error'', onConnectionError (fac s)) \<in> set (listeners (prepared (fac s)))"
proof -
  from create_trace [OF assms] have
    "\<exists>rest. trace s' =
       trace s @
       [Debug ''+1'' [], New (port (fac s)) (host (fac s)) (tlsOptions (fac s)),
        On ''error'' (onConnectionError (fac s)), Open (prepared (fac s))] @ rest"
    by (auto simp: prelude_def)
  moreover have "(''error'', onConnectionError (fac s)) \<in> set (listeners (prepared (fac s)))"
    by (simp add: prepared_def conn_on_def)
  ultimately show ?thesis by simp
qed

theorem error_sink_registered_before_open_witness:
  "take 4 (trace (snd (create server_down (start 0)))) =
     [Debug ''+1'' [], New (PortNumber 7419) ''localhost'' (), On ''error'' ConsoleError,
      Open (prepared (fac (start 0)))] \<and>
   (''error'', ConsoleError) \<in> set (listeners (prepared (fac (start 0))))"
proof -
  have c: "create server_down (start 0) =
             (fst (create server_down (start 0)), snd (create server_down (start 0)))"
    by simp
  from error_sink_registered_before_open [OF c] show ?thesis
    by (auto simp: start_def constructor_def)
qed

text \<open>
  C9. A \<^verbatim>\<open>create\<close> that rejects has made no \<^verbatim>\<open>close\<close> call: nothing it added to the
  trace is a \<^verbatim>\<open>close\<close>. The caller gets the thrown value and no connection.
\<close>

theorem failed_create_never_closes:
  assumes "create ops s = (Inl e, s')"
  shows "\<exists>evs. trace s' = trace s @ evs \<and> (\<forall>x. Close x \<notin> set evs)"
proof -
  from create_trace [OF assms] obtain rest where
    "trace s' = trace s @ prelude (fac s) @ rest" and "\<forall>x. Close x \<notin> set rest"
    by blast
  then have "trace s' = trace s @ (prelude (fac s) @ rest) \<and>
             (\<forall>x. Close x \<notin> set (prelude (fac s) @ rest))"
    by (auto simp: prelude_def)
  then show ?thesis by blast
qed

theorem failed_create_never_closes_witness:
  "fst (create server_down (start 0)) = Inl ''ECONNREFUSED'' \<and>
   (\<forall>x. Close x \<notin> set (trace (snd (create server_down (start 0)))))"
proof -
  have c: "create server_down (start 0) =
             (Inl ''ECONNREFUSED'', snd (create server_down (start 0)))"
    by (simp add: create_server_down)
  from failed_create_never_closes [OF c] show ?thesis
    by (auto simp: create_server_down start_simps)
qed

text \<open>
  C10. Whichever of \<^verbatim>\<open>create\<close>, \<^verbatim>\<open>destroy\<close> and \<^verbatim>\<open>validate\<close> the pool calls, the
  factory afterwards differs from the factory before in \<^verbatim>\<open>attempts\<close> at most:
  \<^verbatim>\<open>host\<close>, \<^verbatim>\<open>port\<close>, \<^verbatim>\<open>tlsOptions\<close>, \<^verbatim>\<open>handshake\<close> and
  \<^verbatim>\<open>onConnectionError\<close> are unchanged.
\<close>

theorem only_attempts_is_mutated:
  assumes "step ops call s = (r, s')"
  shows "host (fac s') = host (fac s) \<and>
         port (fac s') = port (fac s) \<and>
         tlsOptions (fac s') = tlsOptions (fac s) \<and>
         handshake (fac s') = handshake (fac s) \<and>
         onConnectionError (fac s') = onConnectionError (fac s) \<and>
         fac s' = (fac s)\<lparr>attempts := attempts (fac s')\<rparr>"
proof -
  note eq = step_fac(1) [OF assms]
  have "host (fac s') = host ((fac s)\<lparr>attempts := attempts (fac s')\<rparr>)"
    "port (fac s') = port ((fac s)\<lparr>attempts := attempts (fac s')\<rparr>)"
    "tlsOptions (fac s') = tlsOptions ((fac s)\<lparr>attempts := attempts (fac s')\<rparr>)"
    "handshake (fac s') = handshake ((fac s)\<lparr>attempts := attempts (fac s')\<rparr>)"
    "onConnectionError (fac s') = onConnectionError ((fac s)\<lparr>attempts := attempts (fac s')\<rparr>)"
    by (simp_all only: eq [symmetric])
  with eq show ?thesis by simp
qed

theorem only_attempts_is_mutated_witness:
  "host (fac (snd (step server_up Create (start 1)))) = ''localhost'' \<and>
   port (fac (snd (step server_up Create (start 1)))) = PortNumber 7419 \<and>
   handshake (fac (snd (step server_up Create (start 1)))) = flaky_handshake \<and>
   onConnectionError (fac (snd (step server_up Create (start 1)))) = ConsoleError \<and>
   attempts (fac (snd (step server_up Create (start 1)))) = 1"
proof -
  let ?r = "step server_up Create (start 1)"
  have st: "?r = (fst ?r, snd ?r)" by simp
  have a: "attempts (fac (snd ?r)) = 1"
    by (simp add: step_def create_flaky_rejected start_simps)
  from only_attempts_is_mutated [OF st] a show ?thesis
    by (simp add: start_def constructor_def)
qed

end
